theory Spec2Isabelle
  imports Main "HOL-Library.Word"
begin

section \<open>The resolver iterator of websocketpp/common/asio.hpp\<close>

text \<open>
  The header wraps the result range of the newer resolver API in a class
  \<open>resolver::iterator\<close> with three members: \<open>results_\<close>, a shared pointer to the
  result range, \<open>current_\<close>, an iterator of that range, and the flag \<open>is_end_\<close>.
  The record fields carry these names without the final underscore, which the term
  language does not accept at the end of a name.

  A shared pointer is an address (\<open>None\<close> is the null pointer) into a heap of result
  ranges. \<open>std::make_shared\<close> allocates the next free address; a range is never
  modified after it has been stored, so the heap only grows.
\<close>

type_synonym 'e results_type = "'e list"

type_synonym 'e heap = "'e results_type list"

definition make_shared :: "'e heap \<Rightarrow> 'e results_type \<Rightarrow> 'e heap \<times> nat" where
  "make_shared h res = (h @ [res], length h)"

text \<open>Following a shared pointer; \<open>None\<close> is the undefined behaviour of a null pointer.\<close>

definition deref :: "'e heap \<Rightarrow> nat option \<Rightarrow> 'e results_type option" where
  "deref h p =
     (case p of
        None \<Rightarrow> None
      | Some a \<Rightarrow> if a < length h then Some (h ! a) else None)"

text \<open>
  The iterator of the library's result range is declared by the library, not by the
  header. It is taken with the behaviour the library documents: a default constructed
  iterator is the end iterator, \<open>begin()\<close> of an empty range is the end iterator, and
  the increment that leaves the last entry yields the end iterator. Incrementing the end
  iterator is undefined (\<open>None\<close>).
\<close>

datatype results_iterator = Pos nat | Past_end

definition results_begin :: "'e results_type \<Rightarrow> results_iterator" where
  "results_begin res = (if res = [] then Past_end else Pos 0)"

definition results_end :: "'e results_type \<Rightarrow> results_iterator" where
  "results_end res = Past_end"

definition results_next :: "'e results_type \<Rightarrow> results_iterator \<Rightarrow> results_iterator option" where
  "results_next res c =
     (case c of
        Past_end \<Rightarrow> None
      | Pos i \<Rightarrow> Some (if Suc i = length res then Past_end else Pos (Suc i)))"

record iterator =
  results :: "nat option"
  current :: results_iterator
  is_end :: bool

text \<open>\<open>iterator()\<close>: the default constructor.\<close>

definition iterator_default :: iterator where
  "iterator_default = \<lparr>results = None, current = Past_end, is_end = True\<rparr>"

text \<open>\<open>iterator(results_type&&)\<close>: the members are initialised in declaration order.\<close>

definition iterator_from_results :: "'e heap \<Rightarrow> 'e results_type \<Rightarrow> 'e heap \<times> iterator" where
  "iterator_from_results h res =
     (let (h', p) = make_shared h res;
          r = h' ! p;
          cur = results_begin r
      in (h', \<lparr>results = Some p, current = cur, is_end = (cur = results_end r)\<rparr>))"

text \<open>\<open>operator*\<close>: the entry under the cursor; undefined at the end.\<close>

definition operator_star :: "'e heap \<Rightarrow> iterator \<Rightarrow> 'e option" where
  "operator_star h it =
     (case current it of
        Past_end \<Rightarrow> None
      | Pos i \<Rightarrow>
          (case deref h (results it) of
             None \<Rightarrow> None
           | Some r \<Rightarrow> if i < length r then Some (r ! i) else None))"

text \<open>\<open>operator++()\<close>: the pre-increment.\<close>

definition operator_inc :: "'e heap \<Rightarrow> iterator \<Rightarrow> iterator option" where
  "operator_inc h it =
     (if \<not> is_end it then
        (case deref h (results it) of
           None \<Rightarrow> None
         | Some r \<Rightarrow>
             (case results_next r (current it) of
                None \<Rightarrow> None
              | Some c \<Rightarrow>
                  if c = results_end r
                  then Some (it\<lparr>current := c, is_end := True\<rparr>)
                  else Some (it\<lparr>current := c\<rparr>)))
      else Some it)"

text \<open>
  \<open>operator++(int)\<close>: the post-increment returns the copy \<open>tmp\<close> taken before the
  increment, paired here with the new state of the iterator itself.
\<close>

definition operator_post_inc :: "'e heap \<Rightarrow> iterator \<Rightarrow> (iterator \<times> iterator) option" where
  "operator_post_inc h it =
     (let tmp = it
      in case operator_inc h it of
           None \<Rightarrow> None
         | Some it' \<Rightarrow> Some (tmp, it'))"

text \<open>\<open>operator==\<close> and \<open>operator!=\<close>.\<close>

definition operator_eq :: "iterator \<Rightarrow> iterator \<Rightarrow> bool" where
  "operator_eq a b =
     (if is_end a \<and> is_end b then True
      else if is_end a \<noteq> is_end b then False
      else if results a = results b then current a = current b
      else False)"

definition operator_ne :: "iterator \<Rightarrow> iterator \<Rightarrow> bool" where
  "operator_ne a b = (\<not> operator_eq a b)"

text \<open>A run of \<open>n\<close> pre-increments.\<close>

fun pre_increments :: "'e heap \<Rightarrow> nat \<Rightarrow> iterator \<Rightarrow> iterator option" where
  "pre_increments h 0 it = Some it"
| "pre_increments h (Suc n) it =
     (case operator_inc h it of
        None \<Rightarrow> None
      | Some it' \<Rightarrow> pre_increments h n it')"

text \<open>
  The class invariant. The members are private, so an iterator is only ever built by the
  two constructors, copied, or incremented: a null \<open>results_\<close> belongs to an end
  iterator, and otherwise \<open>is_end_\<close> says that \<open>current_\<close> is the end of the range that
  \<open>results_\<close> points to, and a cursor that is not at the end is inside the range.
\<close>

definition iterator_ok :: "'e heap \<Rightarrow> iterator \<Rightarrow> bool" where
  "iterator_ok h it =
     (case results it of
        None \<Rightarrow> is_end it \<and> current it = Past_end
      | Some a \<Rightarrow>
          a < length h \<and> is_end it = (current it = Past_end) \<and>
          (case current it of Past_end \<Rightarrow> True | Pos i \<Rightarrow> i < length (h ! a)))"

section \<open>Iterator objects and their copies\<close>

text \<open>
  Iterators are objects: a program holds several of them, and \<open>++\<close> changes the one it
  is applied to. A world is the heap of result ranges together with the iterator objects,
  each under an object identity. The copy constructor is the defaulted one: it copies the
  three members, the shared pointer included, so that the copy points to the same range.
\<close>

record 'e world =
  snapshots :: "'e heap"
  objects :: "nat \<rightharpoonup> iterator"

definition copy_construct :: "nat \<Rightarrow> nat \<Rightarrow> 'e world \<Rightarrow> 'e world option" where
  "copy_construct src dst w =
     (case objects w src of
        None \<Rightarrow> None
      | Some it \<Rightarrow> Some (w\<lparr>objects := (objects w)(dst \<mapsto> it)\<rparr>))"

definition pre_increment :: "nat \<Rightarrow> 'e world \<Rightarrow> 'e world option" where
  "pre_increment x w =
     (case objects w x of
        None \<Rightarrow> None
      | Some it \<Rightarrow>
          (case operator_inc (snapshots w) it of
             None \<Rightarrow> None
           | Some it' \<Rightarrow> Some (w\<lparr>objects := (objects w)(x \<mapsto> it')\<rparr>)))"

section \<open>The resolver: query and async_resolve\<close>

type_synonym error_code = int

record query =
  host :: string
  service :: string

definition host_name :: "query \<Rightarrow> string" where
  "host_name q = host q"

definition service_name :: "query \<Rightarrow> string" where
  "service_name q = service q"

text \<open>
  The lambda that \<open>async_resolve\<close> hands to the library in place of the caller's
  handler. It runs on the heap of result ranges and on the state \<open>'u\<close> that the caller's
  handler works on; \<open>ec ? a : b\<close> tests the error code for a non-zero value.
\<close>

type_synonym ('e, 'u) completion =
  "error_code \<Rightarrow> 'e results_type \<Rightarrow> 'e heap \<times> 'u \<Rightarrow> 'e heap \<times> 'u"

definition resolve_lambda :: "(error_code \<Rightarrow> iterator \<Rightarrow> 'u \<Rightarrow> 'u) \<Rightarrow> ('e, 'u) completion" where
  "resolve_lambda handler ec res =
     (\<lambda>(h, u).
        let (h', it) = (if ec \<noteq> 0 then (h, iterator_default) else iterator_from_results h res)
        in (h', handler ec it u))"

record ('e, 'u) pending_resolve =
  op_host :: string
  op_service :: string
  op_completion :: "('e, 'u) completion"

record ('e, 'u) program =
  pending :: "('e, 'u) pending_resolve list"
  memory :: "'e heap"
  user :: 'u

text \<open>
  Modelled from the spec: the library's own \<open>async_resolve\<close> and the event loop, which
  are not part of the header. The spec gives their contract: the call returns at once
  and never runs the completion inline, and the loop later calls the completion of each
  operation exactly once, with the outcome of the lookup. The lookup itself is the
  parameter \<open>lookup\<close>.
\<close>

definition asio_async_resolve ::
  "string \<Rightarrow> string \<Rightarrow> ('e, 'u) completion \<Rightarrow> ('e, 'u) program \<Rightarrow> ('e, 'u) program" where
  "asio_async_resolve h s c st =
     st\<lparr>pending := pending st @ [\<lparr>op_host = h, op_service = s, op_completion = c\<rparr>]\<rparr>"

fun deliver ::
  "(string \<Rightarrow> string \<Rightarrow> error_code \<times> 'e results_type) \<Rightarrow> ('e, 'u) pending_resolve list \<Rightarrow>
   'e heap \<times> 'u \<Rightarrow> 'e heap \<times> 'u" where
  "deliver lookup [] s = s"
| "deliver lookup (p # ps) s =
     deliver lookup ps
       (case lookup (op_host p) (op_service p) of (ec, res) \<Rightarrow> op_completion p ec res s)"

definition run ::
  "(string \<Rightarrow> string \<Rightarrow> error_code \<times> 'e results_type) \<Rightarrow> ('e, 'u) program \<Rightarrow> ('e, 'u) program" where
  "run lookup st =
     (let (h, u) = deliver lookup (pending st) (memory st, user st)
      in st\<lparr>pending := [], memory := h, user := u\<rparr>)"

text \<open>\<open>resolver::async_resolve\<close> of the header.\<close>

definition async_resolve ::
  "query \<Rightarrow> (error_code \<Rightarrow> iterator \<Rightarrow> 'u \<Rightarrow> 'u) \<Rightarrow> ('e, 'u) program \<Rightarrow> ('e, 'u) program" where
  "async_resolve q handler st =
     asio_async_resolve (host_name q) (service_name q) (resolve_lambda handler) st"

text \<open>A handler that records each of its invocations.\<close>

definition record_call ::
  "error_code \<Rightarrow> iterator \<Rightarrow> (error_code \<times> iterator) list \<Rightarrow> (error_code \<times> iterator) list" where
  "record_call ec it calls = calls @ [(ec, it)]"

text \<open>An environment in which no host resolves: every lookup fails with error code 1.\<close>

definition no_such_host :: "string \<Rightarrow> string \<Rightarrow> error_code \<times> nat results_type" where
  "no_such_host h s = (1, [])"

section \<open>The timer wrapper\<close>

text \<open>
  Time points and durations of the steady clock are signed 64-bit counts of clock ticks
  (the chrono library's nanosecond count), read with \<open>sint\<close>; the subtraction of two
  counts is the subtraction of the 64-bit values, with no saturation.
  The timer is the library's timer with its stored expiry; whatever else the library's
  timer holds is the extension part of the record. \<open>expires_from_now\<close> is a
  \<open>const\<close> member: it returns the duration, and the timer is passed through to show
  what the call leaves behind. The clock reading \<open>clock_type::now()\<close> is a parameter.
  \<open>is_neg\<close> is the header's test \<open>duration.count() < 0\<close>.
\<close>

type_synonym ticks = "64 word"

record steady_timer =
  expiry :: ticks

definition expires_from_now ::
  "'a steady_timer_scheme \<Rightarrow> ticks \<Rightarrow> ticks \<times> 'a steady_timer_scheme" where
  "expires_from_now this now = (expiry this - now, this)"

definition is_neg :: "ticks \<Rightarrow> bool" where
  "is_neg duration = (sint duration < 0)"

section \<open>The io_service wrapper\<close>

text \<open>
  \<open>io_service\<close> derives from the library's \<open>io_context\<close> and adds no member, so its
  state is the state \<open>'c\<close> of the context. The two functions of the library that the
  wrapper calls, the free function \<open>post\<close> and the member \<open>restart\<close>, are parameters.
\<close>

definition post :: "('c \<Rightarrow> 'h \<Rightarrow> 'c) \<Rightarrow> 'c \<Rightarrow> 'h \<Rightarrow> 'c" where
  "post asio_post this handler = asio_post this handler"

definition reset :: "('c \<Rightarrow> 'c) \<Rightarrow> 'c \<Rightarrow> 'c" where
  "reset restart this = restart this"

section \<open>The invariant is established and kept\<close>

lemma iterator_default_ok: "iterator_ok h iterator_default"
  by (simp add: iterator_ok_def iterator_default_def)

lemma iterator_from_results_ok:
  "iterator_ok (fst (iterator_from_results h res)) (snd (iterator_from_results h res))"
  by (simp add: iterator_ok_def iterator_from_results_def make_shared_def
      results_begin_def results_end_def)

lemma iterator_ok_heap_grows: "iterator_ok h it \<Longrightarrow> iterator_ok (h @ h') it"
  by (auto simp: iterator_ok_def nth_append split: option.splits results_iterator.splits)

lemma operator_inc_total:
  assumes "iterator_ok h it"
  shows "\<exists>it'. operator_inc h it = Some it' \<and> iterator_ok h it'"
proof (cases "is_end it")
  case True
  with assms show ?thesis by (simp add: operator_inc_def)
next
  case False
  with assms obtain a i where a: "results it = Some a" "a < length h"
    and i: "current it = Pos i" "i < length (h ! a)"
    by (auto simp: iterator_ok_def split: option.splits results_iterator.splits)
  show ?thesis
    using False a i
    by (auto simp: operator_inc_def deref_def results_next_def results_end_def iterator_ok_def)
qed

lemma operator_inc_step:
  assumes "a < length h" and "i < length (h ! a)"
  shows "operator_inc h \<lparr>results = Some a, current = Pos i, is_end = False\<rparr> =
         Some (if Suc i = length (h ! a)
               then \<lparr>results = Some a, current = Past_end, is_end = True\<rparr>
               else \<lparr>results = Some a, current = Pos (Suc i), is_end = False\<rparr>)"
  using assms by (simp add: operator_inc_def deref_def results_next_def results_end_def)

lemma pre_increments_walk:
  assumes "a < length h" and "i < length (h ! a)" and "i + k \<le> length (h ! a)"
  shows "pre_increments h k \<lparr>results = Some a, current = Pos i, is_end = False\<rparr> =
         Some (if i + k = length (h ! a)
               then \<lparr>results = Some a, current = Past_end, is_end = True\<rparr>
               else \<lparr>results = Some a, current = Pos (i + k), is_end = False\<rparr>)"
  using assms
proof (induction k arbitrary: i)
  case 0
  then show ?case by simp
next
  case (Suc k)
  show ?case
  proof (cases "Suc i = length (h ! a)")
    case True
    with Suc.prems have "k = 0" by simp
    with True Suc.prems show ?thesis by (simp add: operator_inc_step)
  next
    case False
    with Suc.prems have "Suc i < length (h ! a)" "Suc i + k \<le> length (h ! a)" by simp_all
    from Suc.IH [OF Suc.prems(1) this] False Suc.prems show ?thesis
      by (simp add: operator_inc_step)
  qed
qed

lemma iterator_from_results_eq:
  "iterator_from_results h res =
     (h @ [res], \<lparr>results = Some (length h), current = results_begin res,
                   is_end = (res = [])\<rparr>)"
  by (simp add: iterator_from_results_def make_shared_def results_begin_def results_end_def)

lemma deliver_append:
  "deliver lookup (ps @ qs) s = deliver lookup qs (deliver lookup ps s)"
  by (induction ps arbitrary: s) simp_all

lemma run_async_resolve:
  assumes "lookup (host_name q) (service_name q) = (ec, res)"
  shows "run lookup (async_resolve q handler st) =
         (let st' = run lookup st;
              (h', u') = resolve_lambda handler ec res (memory st', user st')
          in st'\<lparr>memory := h', user := u'\<rparr>)"
  using assms
  by (simp add: run_def async_resolve_def asio_async_resolve_def deliver_append
      split: prod.splits)

lemma sint_sub_in_range:
  fixes a b :: ticks
  assumes "- (2 ^ 63) \<le> sint a - sint b" and "sint a - sint b < 2 ^ 63"
  shows "sint (a - b) = sint a - sint b"
proof -
  have "sint (a - b) = signed_take_bit 63 (sint a - sint b)"
    by (simp add: sint_word_ariths)
  also have "\<dots> = sint a - sint b"
    using assms by (simp add: signed_take_bit_int_eq_self)
  finally show ?thesis .
qed

section \<open>Equality of iterators\<close>

text \<open>
  Claim C1. For two iterators that satisfy the class invariant over the same heap,
  \<open>operator==\<close> returns true if and only if both are at end, or both point to the same
  shared result range and their cursors are at the same position in it.
\<close>

theorem operator_eq_iff:
  assumes "iterator_ok h a" and "iterator_ok h b"
  shows "operator_eq a b \<longleftrightarrow>
         (is_end a \<and> is_end b) \<or>
         (\<exists>p. results a = Some p \<and> results b = Some p \<and> current a = current b)"
proof (cases "is_end a \<and> is_end b")
  case True
  then show ?thesis by (simp add: operator_eq_def)
next
  case False
  show ?thesis
  proof (cases "is_end a = is_end b")
    case True
    with False have ne: "\<not> is_end a" "\<not> is_end b" by auto
    with assms obtain p q where "results a = Some p" "results b = Some q"
      by (auto simp: iterator_ok_def split: option.splits)
    with ne show ?thesis by (auto simp: operator_eq_def)
  next
    case diff: False
    have "\<not> (\<exists>p. results a = Some p \<and> results b = Some p \<and> current a = current b)"
      using assms diff by (auto simp: iterator_ok_def split: option.splits)
    with diff False show ?thesis by (auto simp: operator_eq_def)
  qed
qed

theorem operator_eq_iff_witness:
  "iterator_ok [[10, 20 :: nat]] \<lparr>results = Some 0, current = Pos 1, is_end = False\<rparr> \<and>
   iterator_ok [[10, 20 :: nat]] \<lparr>results = Some 0, current = Pos 1, is_end = False\<rparr> \<and>
   operator_eq \<lparr>results = Some 0, current = Pos 1, is_end = False\<rparr>
     \<lparr>results = Some 0, current = Pos 1, is_end = False\<rparr>"
  using operator_eq_iff [of "[[10, 20 :: nat]]"
      "\<lparr>results = Some 0, current = Pos 1, is_end = False\<rparr>"
      "\<lparr>results = Some 0, current = Pos 1, is_end = False\<rparr>"]
  by (simp add: iterator_ok_def)

text \<open>
  Claim C2. The default constructed iterator is an end sentinel: it compares equal to
  \<open>iterator()\<close> and its end flag is set.
\<close>

theorem default_iterator_is_end:
  "operator_eq iterator_default iterator_default \<and> is_end iterator_default"
  by (simp add: operator_eq_def iterator_default_def)

text \<open>
  Claim C10. \<open>a != b\<close> is the negation of \<open>a == b\<close> for every pair of iterators.
\<close>

theorem operator_ne_negates_eq: "operator_ne a b = (\<not> operator_eq a b)"
  by (simp add: operator_ne_def)

section \<open>Increments\<close>

text \<open>
  Claim C7. At end, the pre-increment returns the iterator unchanged, and the
  post-increment returns the unchanged iterator and leaves it unchanged.
\<close>

theorem increment_at_end_idempotent:
  assumes "is_end it"
  shows "operator_inc h it = Some it \<and> operator_post_inc h it = Some (it, it)"
  using assms by (simp add: operator_inc_def operator_post_inc_def)

theorem increment_at_end_idempotent_witness:
  "is_end iterator_default \<and>
   operator_inc ([] :: nat list list) iterator_default = Some iterator_default \<and>
   operator_post_inc ([] :: nat list list) iterator_default =
     Some (iterator_default, iterator_default)"
  using increment_at_end_idempotent [of iterator_default "[] :: nat list list"]
  by (simp add: iterator_default_def)

text \<open>
  Claim C9. For an iterator that is not at end, the post-increment is defined, returns a
  copy that is the iterator as it was before (and compares equal to it), and leaves the
  iterator in the state the pre-increment gives.
\<close>

theorem post_increment_returns_old:
  assumes "iterator_ok h it" and "\<not> is_end it"
  shows "\<exists>it'. operator_inc h it = Some it' \<and> operator_post_inc h it = Some (it, it') \<and>
           operator_eq (fst (it, it')) it"
proof -
  from operator_inc_total [OF assms(1)] obtain it' where inc: "operator_inc h it = Some it'"
    by blast
  then show ?thesis
    by (simp add: operator_post_inc_def operator_eq_def)
qed

theorem post_increment_returns_old_witness:
  "iterator_ok [[10, 20 :: nat]] \<lparr>results = Some 0, current = Pos 0, is_end = False\<rparr> \<and>
   \<not> is_end \<lparr>results = Some 0, current = Pos 0, is_end = False\<rparr> \<and>
   operator_post_inc [[10, 20 :: nat]] \<lparr>results = Some 0, current = Pos 0, is_end = False\<rparr> =
     Some (\<lparr>results = Some 0, current = Pos 0, is_end = False\<rparr>,
           \<lparr>results = Some 0, current = Pos 1, is_end = False\<rparr>)"
  using post_increment_returns_old [of "[[10, 20 :: nat]]"
      "\<lparr>results = Some 0, current = Pos 0, is_end = False\<rparr>"]
  by (simp add: iterator_ok_def operator_inc_def deref_def results_next_def results_end_def)

text \<open>
  Claim C3. An iterator constructed from a result range of \<open>N\<close> entries is at end after
  exactly \<open>N\<close> pre-increments: every run of \<open>k \<le> N\<close> pre-increments is defined, and the
  iterator it yields is at end if and only if \<open>k = N\<close>. For the empty range this is the
  constructed iterator itself, with no increment.
\<close>

theorem reaches_end_after_all_entries:
  assumes "k \<le> length res"
  shows "\<exists>it'. pre_increments (fst (iterator_from_results h res)) k
                 (snd (iterator_from_results h res)) = Some it' \<and>
               is_end it' = (k = length res)"
proof (cases "res = []")
  case True
  with assms show ?thesis by (simp add: iterator_from_results_eq)
next
  case False
  have "pre_increments (h @ [res]) k \<lparr>results = Some (length h), current = Pos 0, is_end = False\<rparr> =
        Some (if 0 + k = length ((h @ [res]) ! length h)
              then \<lparr>results = Some (length h), current = Past_end, is_end = True\<rparr>
              else \<lparr>results = Some (length h), current = Pos (0 + k), is_end = False\<rparr>)"
    using False assms by (intro pre_increments_walk) simp_all
  with False show ?thesis
    by (simp add: iterator_from_results_eq results_begin_def)
qed

theorem reaches_end_after_all_entries_witness:
  "(3::nat) \<le> length [10, 20, 30 :: nat] \<and>
   (\<exists>it'. pre_increments (fst (iterator_from_results [] [10, 20, 30 :: nat])) 3
            (snd (iterator_from_results [] [10, 20, 30 :: nat])) = Some it' \<and> is_end it')"
  using reaches_end_after_all_entries [of 3 "[10, 20, 30 :: nat]" "[]"]
  by simp

text \<open>
  Claim C6. Two copies \<open>y\<close> and \<open>z\<close> made from the same iterator are independent
  cursors: the pre-increment of \<open>y\<close> moves \<open>y\<close> as it would move the original, leaves
  \<open>z\<close> with its position and end flag as they were, and leaves the shared result range
  untouched; a later pre-increment of \<open>z\<close> then moves \<open>z\<close> to the same place without
  changing \<open>y\<close>.
\<close>

theorem copies_advance_independently:
  assumes "objects w x = Some it" and "iterator_ok (snapshots w) it" and "y \<noteq> z"
    and "copy_construct x y w = Some w1" and "copy_construct x z w1 = Some w2"
  shows "\<exists>w3 it'. operator_inc (snapshots w) it = Some it' \<and>
           pre_increment y w2 = Some w3 \<and>
           objects w3 y = Some it' \<and> objects w3 z = Some it \<and>
           snapshots w3 = snapshots w \<and>
           (\<exists>w4. pre_increment z w3 = Some w4 \<and>
                  objects w4 z = Some it' \<and> objects w4 y = Some it')"
proof -
  from operator_inc_total [OF assms(2)]
  obtain it' where inc: "operator_inc (snapshots w) it = Some it'"
    by blast
  from assms(1,4) have w1: "w1 = w\<lparr>objects := (objects w)(y \<mapsto> it)\<rparr>"
    by (simp add: copy_construct_def)
  with assms(1,5) have w2: "w2 = w\<lparr>objects := (objects w)(y \<mapsto> it, z \<mapsto> it)\<rparr>"
    by (auto simp: copy_construct_def split: if_splits)
  let ?w3 = "w\<lparr>objects := (objects w)(y \<mapsto> it, z \<mapsto> it, y \<mapsto> it')\<rparr>"
  have p3: "pre_increment y w2 = Some ?w3"
    using w2 inc assms(3) by (simp add: pre_increment_def)
  have p4: "pre_increment z ?w3 = Some (?w3\<lparr>objects := (objects ?w3)(z \<mapsto> it')\<rparr>)"
    using inc assms(3) by (simp add: pre_increment_def)
  from inc p3 p4 assms(3) show ?thesis by simp
qed

theorem copies_advance_independently_witness:
  "objects \<lparr>snapshots = [[10, 20 :: nat]],
            objects = [0 \<mapsto> \<lparr>results = Some 0, current = Pos 0, is_end = False\<rparr>]\<rparr> 0 =
     Some \<lparr>results = Some 0, current = Pos 0, is_end = False\<rparr> \<and>
   iterator_ok [[10, 20 :: nat]] \<lparr>results = Some 0, current = Pos 0, is_end = False\<rparr> \<and>
   (1::nat) \<noteq> 2 \<and>
   copy_construct 0 1
     \<lparr>snapshots = [[10, 20 :: nat]],
      objects = [0 \<mapsto> \<lparr>results = Some 0, current = Pos 0, is_end = False\<rparr>]\<rparr> =
     Some \<lparr>snapshots = [[10, 20 :: nat]],
           objects = [0 \<mapsto> \<lparr>results = Some 0, current = Pos 0, is_end = False\<rparr>,
                      1 \<mapsto> \<lparr>results = Some 0, current = Pos 0, is_end = False\<rparr>]\<rparr> \<and>
   copy_construct 0 2
     \<lparr>snapshots = [[10, 20 :: nat]],
      objects = [0 \<mapsto> \<lparr>results = Some 0, current = Pos 0, is_end = False\<rparr>,
                 1 \<mapsto> \<lparr>results = Some 0, current = Pos 0, is_end = False\<rparr>]\<rparr> =
     Some \<lparr>snapshots = [[10, 20 :: nat]],
           objects = [0 \<mapsto> \<lparr>results = Some 0, current = Pos 0, is_end = False\<rparr>,
                      1 \<mapsto> \<lparr>results = Some 0, current = Pos 0, is_end = False\<rparr>,
                      2 \<mapsto> \<lparr>results = Some 0, current = Pos 0, is_end = False\<rparr>]\<rparr> \<and>
   (\<exists>w3. pre_increment 1
       \<lparr>snapshots = [[10, 20 :: nat]],
        objects = [0 \<mapsto> \<lparr>results = Some 0, current = Pos 0, is_end = False\<rparr>,
                   1 \<mapsto> \<lparr>results = Some 0, current = Pos 0, is_end = False\<rparr>,
                   2 \<mapsto> \<lparr>results = Some 0, current = Pos 0, is_end = False\<rparr>]\<rparr> = Some w3 \<and>
      objects w3 1 = Some \<lparr>results = Some 0, current = Pos 1, is_end = False\<rparr> \<and>
      objects w3 2 = Some \<lparr>results = Some 0, current = Pos 0, is_end = False\<rparr>)"
proof -
  let ?it = "\<lparr>results = Some 0, current = Pos 0, is_end = False\<rparr>"
  let ?w = "\<lparr>snapshots = [[10, 20 :: nat]], objects = [0 \<mapsto> ?it]\<rparr>"
  let ?w1 = "\<lparr>snapshots = [[10, 20 :: nat]], objects = [0 \<mapsto> ?it, 1 \<mapsto> ?it]\<rparr>"
  let ?w2 = "\<lparr>snapshots = [[10, 20 :: nat]], objects = [0 \<mapsto> ?it, 1 \<mapsto> ?it, 2 \<mapsto> ?it]\<rparr>"
  have a: "objects ?w 0 = Some ?it" by simp
  have b: "iterator_ok (snapshots ?w) ?it" by (simp add: iterator_ok_def)
  have c: "(1::nat) \<noteq> 2" by simp
  have d: "copy_construct 0 1 ?w = Some ?w1" by (simp add: copy_construct_def)
  have e: "copy_construct 0 2 ?w1 = Some ?w2" by (simp add: copy_construct_def)
  have f: "operator_inc [[10, 20 :: nat]] ?it =
           Some \<lparr>results = Some 0, current = Pos 1, is_end = False\<rparr>"
    by (simp add: operator_inc_step)
  from copies_advance_independently [OF a b c d e] f
  have "\<exists>w3. pre_increment 1 ?w2 = Some w3 \<and>
          objects w3 1 = Some \<lparr>results = Some 0, current = Pos 1, is_end = False\<rparr> \<and>
          objects w3 2 = Some ?it"
    by auto
  with a b c d e show ?thesis by simp
qed

section \<open>Asynchronous resolution\<close>

text \<open>
  Claim C4. A call of \<open>async_resolve\<close> does not run the handler itself; when the loop
  has run, the handler has been applied exactly once, to the error code of the lookup and
  to an iterator that is the default constructed end iterator (and compares equal to it)
  when the error code is non-zero, and otherwise is the iterator constructed from the
  resolved range: it points to a fresh copy of that range and stands at its beginning.
\<close>

theorem async_resolve_handler_once:
  assumes "lookup (host_name q) (service_name q) = (ec, res)"
  shows "user (async_resolve q handler st) = user st \<and>
         (\<exists>it. user (run lookup (async_resolve q handler st)) =
                  handler ec it (user (run lookup st)) \<and>
               (if ec \<noteq> 0
                then it = iterator_default \<and> operator_eq it iterator_default \<and>
                     memory (run lookup (async_resolve q handler st)) = memory (run lookup st)
                else (memory (run lookup (async_resolve q handler st)), it) =
                       iterator_from_results (memory (run lookup st)) res \<and>
                     deref (memory (run lookup (async_resolve q handler st))) (results it) =
                       Some res \<and>
                     current it = results_begin res))"
proof (cases "ec = 0")
  case True
  with run_async_resolve [where lookup = lookup and q = q and handler = handler and st = st,
      OF assms]
  show ?thesis
    by (simp add: resolve_lambda_def iterator_from_results_eq deref_def
        async_resolve_def asio_async_resolve_def Let_def)
next
  case False
  with run_async_resolve [where lookup = lookup and q = q and handler = handler and st = st,
      OF assms]
  show ?thesis
    by (simp add: resolve_lambda_def operator_eq_def iterator_default_def
        async_resolve_def asio_async_resolve_def Let_def)
qed

theorem async_resolve_handler_once_witness:
  "no_such_host (host_name \<lparr>host = ''nowhere'', service = ''http''\<rparr>)
     (service_name \<lparr>host = ''nowhere'', service = ''http''\<rparr>) = (1, []) \<and>
   user (run no_such_host
     (async_resolve \<lparr>host = ''nowhere'', service = ''http''\<rparr> record_call
        \<lparr>pending = [], memory = [], user = []\<rparr>)) = [(1, iterator_default)]"
proof -
  let ?q = "\<lparr>host = ''nowhere'', service = ''http''\<rparr>"
  let ?st = "\<lparr>pending = [], memory = [] :: nat list list,
             user = [] :: (error_code \<times> iterator) list\<rparr>"
  have a: "no_such_host (host_name ?q) (service_name ?q) = (1, [])"
    by (simp add: no_such_host_def)
  have b: "user (run no_such_host ?st) = []"
    by (simp add: run_def)
  from async_resolve_handler_once [where lookup = no_such_host and q = ?q and handler = record_call
      and st = ?st, OF a] b
  have "user (run no_such_host (async_resolve ?q record_call ?st)) = [(1, iterator_default)]"
    by (auto simp: record_call_def)
  with a show ?thesis by simp
qed

section \<open>The timer and the io_service wrapper\<close>

text \<open>
  Claim C5, as amended. \<open>expires_from_now\<close> leaves the whole timer, its expiry and
  everything else it holds, as it was. Whenever the exact difference of the stored expiry
  and the clock reading fits the signed 64-bit tick count, the returned duration is that
  difference, and it is negative exactly when the expiry lies before the reading.
\<close>

theorem expires_from_now_readonly:
  "snd (expires_from_now t now) = t \<and>
   (- (2 ^ 63) \<le> sint (expiry t) - sint now \<and> sint (expiry t) - sint now < 2 ^ 63 \<longrightarrow>
      sint (fst (expires_from_now t now)) = sint (expiry t) - sint now \<and>
      is_neg (fst (expires_from_now t now)) = (sint (expiry t) < sint now))"
  using sint_sub_in_range [of "expiry t" now]
  by (simp add: expires_from_now_def is_neg_def)

theorem expires_from_now_readonly_witness:
  "- (2 ^ 63) \<le> sint (expiry \<lparr>expiry = 5\<rparr>) - sint (7 :: ticks) \<and>
   sint (expiry \<lparr>expiry = 5\<rparr>) - sint (7 :: ticks) < 2 ^ 63 \<and>
   snd (expires_from_now \<lparr>expiry = 5\<rparr> 7) = \<lparr>expiry = 5\<rparr> \<and>
   sint (fst (expires_from_now \<lparr>expiry = 5\<rparr> 7)) = - 2 \<and>
   is_neg (fst (expires_from_now \<lparr>expiry = 5\<rparr> 7))"
  using expires_from_now_readonly [of "\<lparr>expiry = 5\<rparr>" 7]
  by simp

text \<open>
  Without the bound the statement fails, namely where the difference does not
  fit: with the expiry at the least time point and the clock at 1, the expiry is in the
  past, yet the returned duration is the largest positive one, not the difference, and
  \<open>is_neg\<close> is false.
\<close>

theorem expires_from_now_overflow:
  "sint (expiry \<lparr>expiry = - 9223372036854775808\<rparr>) < sint (1 :: ticks) \<and>
   sint (fst (expires_from_now \<lparr>expiry = - 9223372036854775808\<rparr> 1)) = 9223372036854775807 \<and>
   sint (fst (expires_from_now \<lparr>expiry = - 9223372036854775808\<rparr> 1)) \<noteq>
     sint (expiry \<lparr>expiry = - 9223372036854775808\<rparr>) - sint (1 :: ticks) \<and>
   \<not> is_neg (fst (expires_from_now \<lparr>expiry = - 9223372036854775808\<rparr> 1))"
  by (simp add: expires_from_now_def is_neg_def)

text \<open>
  Claim C8. \<open>post\<close> of the wrapper is the library's free function \<open>post\<close> on this
  context, and \<open>reset\<close> is the library's \<open>restart\<close>: the state after the wrapper's call
  is the state after the library's call.
\<close>

theorem io_service_delegates:
  "post asio_post this handler = asio_post this handler \<and> reset restart this = restart this"
  by (simp add: post_def reset_def)

end
